theory Spec2Isabelle
  imports Complex_Main "HOL-Library.AList"
begin

section \<open>Tables\<close>

text \<open>
  The helper functions of \<^verbatim>\<open>ad_ops_helper_functions.py\<close> work on pandas data frames.
  A frame is modelled column-wise, as pandas stores it: an association list from column
  names to columns, every column a list of cells. A cell is a text or a float; the floats
  carry the three special values of IEEE arithmetic, and \<open>NaN\<close> doubles as the missing
  value, as it does in pandas. Finite floats are exact rationals: rounding is not modelled.
\<close>

datatype num = Fin rat | PInf | NInf | NaN

datatype cell = Str string | Num num

datatype error = KeyError string | TypeError | ValueError

type_synonym dataframe = "(string \<times> cell list) list"

text \<open>\<^verbatim>\<open>df[name]\<close>: the column, or \<^verbatim>\<open>KeyError\<close> when the frame has no such column.\<close>

definition getitem :: "dataframe \<Rightarrow> string \<Rightarrow> error + cell list" where
  "getitem df name = (case map_of df name of None \<Rightarrow> Inl (KeyError name) | Some col \<Rightarrow> Inr col)"

text \<open>\<^verbatim>\<open>series == text\<close>, element by element; a float never equals a text.\<close>

definition eq_str :: "cell list \<Rightarrow> string \<Rightarrow> bool list" where
  "eq_str col s = map (\<lambda>c. c = Str s) col"

text \<open>\<^verbatim>\<open>mask1 & mask2\<close>.\<close>

definition mask_and :: "bool list \<Rightarrow> bool list \<Rightarrow> bool list" where
  "mask_and m1 m2 = map2 (\<and>) m1 m2"

text \<open>\<^verbatim>\<open>df.loc[mask, name]\<close> read: the cells of the column on the rows the mask selects.\<close>

definition loc_get :: "bool list \<Rightarrow> cell list \<Rightarrow> cell list" where
  "loc_get sel col = map snd (filter fst (zip sel col))"

text \<open>\<^verbatim>\<open>df.loc[mask, name] = v\<close> on an existing column: the selected cells become \<open>v\<close>.\<close>

definition loc_set :: "bool list \<Rightarrow> cell \<Rightarrow> cell list \<Rightarrow> cell list" where
  "loc_set sel v col = map2 (\<lambda>b c. if b then v else c) sel col"

text \<open>
  \<^verbatim>\<open>df.loc[mask, name] = v\<close> on a column the frame does not have: pandas enlarges a
  frame that has rows by a new last column that holds \<open>v\<close> on the selected rows and the
  missing value elsewhere. On a frame with no rows the assignment of a scalar raises
  \<^verbatim>\<open>ValueError\<close> (cannot set a frame with no defined index and a scalar).
\<close>

definition loc_new :: "bool list \<Rightarrow> cell \<Rightarrow> cell list" where
  "loc_new sel v = map (\<lambda>b. if b then v else Num NaN) sel"

definition notna :: "cell \<Rightarrow> bool" where
  "notna c = (c \<noteq> Num NaN)"

text \<open>\<^verbatim>\<open>Series.count()\<close>: the number of cells that are not missing.\<close>

definition count_series :: "cell list \<Rightarrow> nat" where
  "count_series col = length (filter notna col)"

text \<open>Float addition, with the IEEE rules for the special values.\<close>

fun add_num :: "num \<Rightarrow> num \<Rightarrow> num" where
  "add_num (Fin a) (Fin b) = Fin (a + b)"
| "add_num NaN _ = NaN"
| "add_num _ NaN = NaN"
| "add_num PInf NInf = NaN"
| "add_num NInf PInf = NaN"
| "add_num PInf _ = PInf"
| "add_num _ PInf = PInf"
| "add_num NInf _ = NInf"
| "add_num _ NInf = NInf"

text \<open>
  \<^verbatim>\<open>Series.sum()\<close> with its default \<^verbatim>\<open>skipna=True\<close>: missing cells are left out, the
  others are added up from 0 in row order, and the sum of no cells is 0. The value columns
  are numeric (line 135 makes them so); a text among the selected cells ends in a
  \<^verbatim>\<open>TypeError\<close>, at the sum or at the division that follows it in \<open>update_budgets\<close>,
  and is modelled as that error here.
\<close>

fun sum_from :: "num \<Rightarrow> cell list \<Rightarrow> error + num" where
  "sum_from acc [] = Inr acc"
| "sum_from acc (Str s # cs) = Inl TypeError"
| "sum_from acc (Num NaN # cs) = sum_from acc cs"
| "sum_from acc (Num x # cs) = sum_from (add_num acc x) cs"

definition sum_series :: "cell list \<Rightarrow> error + num" where
  "sum_series col = sum_from (Fin 0) col"

text \<open>
  \<^verbatim>\<open>budget / num_flights\<close>, a numpy float divided by a numpy integer count. Division by
  a zero count raises nothing: numpy warns and returns \<open>nan\<close> for \<open>0 / 0\<close> and a signed
  infinity otherwise.
\<close>

fun true_divide :: "num \<Rightarrow> nat \<Rightarrow> num" where
  "true_divide (Fin b) n =
     (if n = 0 then (if b = 0 then NaN else if 0 < b then PInf else NInf)
      else Fin (b / of_nat n))"
| "true_divide PInf n = PInf"
| "true_divide NInf n = NInf"
| "true_divide NaN n = NaN"

section \<open>The budget helpers\<close>

definition get_num_flights :: "dataframe \<Rightarrow> string \<Rightarrow> string \<Rightarrow> error + nat" where
  "get_num_flights df package start_date =
     (case getitem df ''Package Name'' of Inl e \<Rightarrow> Inl e | Inr pk \<Rightarrow>
      case getitem df ''Start Date'' of Inl e \<Rightarrow> Inl e | Inr sd \<Rightarrow>
      case getitem df ''Budget'' of Inl e \<Rightarrow> Inl e | Inr bd \<Rightarrow>
        Inr (count_series (loc_get (mask_and (eq_str pk package) (eq_str sd start_date)) bd)))"

definition get_budget :: "dataframe \<Rightarrow> string \<Rightarrow> string \<Rightarrow> error + num" where
  "get_budget df package start_date =
     (let header_start_date = ''Header_'' @ start_date;
          value_start_date = ''Values_'' @ start_date
      in case getitem df ''Package Name'' of Inl e \<Rightarrow> Inl e | Inr pk \<Rightarrow>
         case getitem df header_start_date of Inl e \<Rightarrow> Inl e | Inr hdr \<Rightarrow>
         case getitem df value_start_date of Inl e \<Rightarrow> Inl e | Inr vl \<Rightarrow>
           sum_series (loc_get (mask_and (eq_str pk package) (eq_str hdr start_date)) vl))"

definition update_flight_level_budgets ::
    "dataframe \<Rightarrow> string \<Rightarrow> string \<Rightarrow> num \<Rightarrow> error + dataframe" where
  "update_flight_level_budgets df package start_date flight_level_budget =
     (case getitem df ''Package Name'' of Inl e \<Rightarrow> Inl e | Inr pk \<Rightarrow>
      case getitem df ''Start Date'' of Inl e \<Rightarrow> Inl e | Inr sd \<Rightarrow>
        (let sel = mask_and (eq_str pk package) (eq_str sd start_date)
         in case map_of df ''Budget'' of
              None \<Rightarrow>
                if pk = [] then Inl ValueError
                else Inr (AList.update ''Budget'' (loc_new sel (Num flight_level_budget)) df)
            | Some bd \<Rightarrow>
                Inr (AList.update ''Budget'' (loc_set sel (Num flight_level_budget) bd) df)))"

text \<open>
  The body of the two loops of \<open>update_budgets\<close> for one package and one start date. The
  flight table is changed in place in the source; here it is passed through.
\<close>

definition update_pair :: "dataframe \<Rightarrow> string \<Rightarrow> string \<Rightarrow> dataframe \<Rightarrow> error + dataframe" where
  "update_pair df2 package start_date df1 =
     (case get_num_flights df1 package start_date of Inl e \<Rightarrow> Inl e | Inr num_flights \<Rightarrow>
      case get_budget df2 package start_date of Inl e \<Rightarrow> Inl e | Inr budget \<Rightarrow>
        (let flight_level_budget = true_divide budget num_flights
         in update_flight_level_budgets df1 package start_date flight_level_budget))"

fun start_dates_loop :: "dataframe \<Rightarrow> string \<Rightarrow> string list \<Rightarrow> dataframe \<Rightarrow> error + dataframe" where
  "start_dates_loop df2 package [] df1 = Inr df1"
| "start_dates_loop df2 package (start_date # rest) df1 =
     (case update_pair df2 package start_date df1 of
        Inl e \<Rightarrow> Inl e
      | Inr df1' \<Rightarrow> start_dates_loop df2 package rest df1')"

fun packages_loop :: "dataframe \<Rightarrow> string list \<Rightarrow> string list \<Rightarrow> dataframe \<Rightarrow> error + dataframe" where
  "packages_loop df2 [] unique_start_dates df1 = Inr df1"
| "packages_loop df2 (package # rest) unique_start_dates df1 =
     (case start_dates_loop df2 package unique_start_dates df1 of
        Inl e \<Rightarrow> Inl e
      | Inr df1' \<Rightarrow> packages_loop df2 rest unique_start_dates df1')"

text \<open>
  \<^verbatim>\<open>list(set(xs))\<close> lists the distinct values of \<open>xs\<close> in an order that Python does not
  fix. The order is a parameter of the model, \<open>list_set\<close>; \<open>set_order xs ys\<close> says that
  \<open>ys\<close> is one of the lists that \<^verbatim>\<open>list(set(xs))\<close> can be.
\<close>

definition set_order :: "string list \<Rightarrow> string list \<Rightarrow> bool" where
  "set_order xs ys = (distinct ys \<and> set ys = set xs)"

definition update_budgets ::
    "(string list \<Rightarrow> string list) \<Rightarrow> dataframe \<Rightarrow> dataframe \<Rightarrow> string list \<Rightarrow> string list
      \<Rightarrow> error + dataframe" where
  "update_budgets list_set df1 df2 packages_to_process start_dates =
     (let unique_packages = list_set packages_to_process;
          unique_start_dates = list_set start_dates
      in packages_loop df2 unique_packages unique_start_dates df1)"

section \<open>Rows and groups\<close>

text \<open>
  The notions the properties are stated with. The rows of a table are numbered from 0;
  \<open>matching_rows c1 c2 v1 v2\<close> lists, in order, the rows that hold the text \<open>v1\<close> in
  column \<open>c1\<close> and the text \<open>v2\<close> in column \<open>c2\<close>.
\<close>

definition matching_rows :: "cell list \<Rightarrow> cell list \<Rightarrow> string \<Rightarrow> string \<Rightarrow> nat list" where
  "matching_rows c1 c2 v1 v2 = filter (\<lambda>i. c1 ! i = Str v1 \<and> c2 ! i = Str v2) [0..<length c1]"

text \<open>The amount a cell adds to a sum: its value when it is a finite number, nothing otherwise.\<close>

fun cell_value :: "cell \<Rightarrow> rat" where
  "cell_value (Num (Fin q)) = q"
| "cell_value _ = 0"

definition finite_or_missing :: "cell \<Rightarrow> bool" where
  "finite_or_missing c = (case c of Num (Fin q) \<Rightarrow> True | Num NaN \<Rightarrow> True | _ \<Rightarrow> False)"

text \<open>A frame whose columns all have \<open>n\<close> rows, as every pandas frame has.\<close>

definition frame_rows :: "dataframe \<Rightarrow> nat \<Rightarrow> bool" where
  "frame_rows df n = list_all (\<lambda>(name, col). length col = n) df"

text \<open>The cell of a named column in row \<open>i\<close>, if the frame has the column.\<close>

definition cell_at :: "dataframe \<Rightarrow> string \<Rightarrow> nat \<Rightarrow> cell option" where
  "cell_at df name i = map_option (\<lambda>col. col ! i) (map_of df name)"

text \<open>Row \<open>i\<close> of a flight table belongs to one of the processed (package, start date) pairs.\<close>

definition processed_row :: "dataframe \<Rightarrow> string list \<Rightarrow> string list \<Rightarrow> nat \<Rightarrow> bool" where
  "processed_row df packages start_dates i =
     list_ex (\<lambda>p. list_ex (\<lambda>d. cell_at df ''Package Name'' i = Some (Str p)
                                \<and> cell_at df ''Start Date'' i = Some (Str d)) start_dates) packages"

text \<open>What a run returns when it raises nothing.\<close>

definition table_of :: "error + dataframe \<Rightarrow> dataframe option" where
  "table_of r = (case r of Inl e \<Rightarrow> None | Inr df \<Rightarrow> Some df)"

text \<open>
  The two nested loops of \<open>update_budgets\<close> as one loop over the pairs, in the order the
  nesting visits them.
\<close>

fun pairs_loop :: "dataframe \<Rightarrow> (string \<times> string) list \<Rightarrow> dataframe \<Rightarrow> error + dataframe" where
  "pairs_loop df2 [] df1 = Inr df1"
| "pairs_loop df2 ((package, start_date) # rest) df1 =
     (case update_pair df2 package start_date df1 of
        Inl e \<Rightarrow> Inl e
      | Inr df1' \<Rightarrow> pairs_loop df2 rest df1')"

text \<open>
  The budget column after the pairs in \<open>K\<close> have been processed, from the columns of the
  table the run started with: a row of a pair in \<open>K\<close> holds that pair's aggregate budget
  divided by the number of its rows with a budget that is not missing; every other row
  holds what it held.
\<close>

definition budget_of :: "dataframe \<Rightarrow> string \<Rightarrow> string \<Rightarrow> num" where
  "budget_of df2 p d = (case get_budget df2 p d of Inl e \<Rightarrow> NaN | Inr b \<Rightarrow> b)"

definition flight_share ::
    "dataframe \<Rightarrow> cell list \<Rightarrow> cell list \<Rightarrow> cell list \<Rightarrow> string \<Rightarrow> string \<Rightarrow> num" where
  "flight_share df2 pk sd bd p d =
     true_divide (budget_of df2 p d)
       (length (filter (\<lambda>i. bd ! i \<noteq> Num NaN) (matching_rows pk sd p d)))"

definition reallocated ::
    "dataframe \<Rightarrow> cell list \<Rightarrow> cell list \<Rightarrow> cell list \<Rightarrow> (string \<times> string) set \<Rightarrow> cell list" where
  "reallocated df2 pk sd bd K =
     map (\<lambda>i. case (pk ! i, sd ! i) of
                (Str p, Str d) \<Rightarrow>
                  if (p, d) \<in> K then Num (flight_share df2 pk sd bd p d) else bd ! i
              | _ \<Rightarrow> bd ! i)
         [0..<length bd]"

text \<open>
  The table a run over the pairs in \<open>K\<close> returns, if it returns one: the table it was given
  when there is no pair; otherwise the flight columns must be there and every pair must
  have an aggregate budget, and the budget column is the reallocated one.
\<close>

definition expected_table ::
    "dataframe \<Rightarrow> dataframe \<Rightarrow> (string \<times> string) set \<Rightarrow> dataframe option" where
  "expected_table df2 df1 K =
     (if K = {} then Some df1
      else case (map_of df1 ''Package Name'', map_of df1 ''Start Date'', map_of df1 ''Budget'') of
             (Some pk, Some sd, Some bd) \<Rightarrow>
               if \<forall>(p, d) \<in> K. \<exists>b. get_budget df2 p d = Inr b
               then Some (AList.update ''Budget'' (reallocated df2 pk sd bd K) df1)
               else None
           | _ \<Rightarrow> None)"

section \<open>Cleaning budget texts\<close>

text \<open>
  \<open>clean_and_convert_budgets\<close> replaces, in every text of a budget column, the matches of
  the regular expression \<^verbatim>\<open>[\s\$-,]\<close> by nothing (line 134) and converts the result to
  a number, a text that is no number becoming the missing value (line 135). Both steps are
  modelled on one text. A character is a code point below 256.

  The pattern is a single character class. Its body is read the way Python's \<^verbatim>\<open>re\<close>
  reads it: a backslash escapes the next character, \<^verbatim>\<open>\s\<close> is the whitespace
  category, and an unescaped hyphen between two characters makes a range. Escapes by a
  letter or a digit other than \<^verbatim>\<open>\s\<close>, negated classes and anything outside a single
  class are not modelled: \<open>compile_class\<close> returns \<open>None\<close> for them.
\<close>

datatype class_item = Space_Category | Lit char | Char_Range char char

datatype token = Item class_item | Dash | Close | Bad

definition backslash :: char where
  "backslash = CHR 0x5C"

definition is_digit :: "char \<Rightarrow> bool" where
  "is_digit c = (48 \<le> (of_char c :: nat) \<and> (of_char c :: nat) \<le> 57)"

definition is_alpha :: "char \<Rightarrow> bool" where
  "is_alpha c = ((65 \<le> (of_char c :: nat) \<and> (of_char c :: nat) \<le> 90)
               \<or> (97 \<le> (of_char c :: nat) \<and> (of_char c :: nat) \<le> 122))"

definition class_escape :: "char \<Rightarrow> token" where
  "class_escape e =
     (if e = CHR ''s'' then Item Space_Category
      else if is_digit e \<or> is_alpha e then Bad
      else Item (Lit e))"

definition plain :: "char \<Rightarrow> token" where
  "plain c = (if c = backslash then Bad else if c = CHR ''-'' then Dash
              else if c = CHR '']'' then Close else Item (Lit c))"

fun class_tokens :: "string \<Rightarrow> token list" where
  "class_tokens [] = []"
| "class_tokens [c] = [plain c]"
| "class_tokens (c # e # rest) =
     (if c = backslash then class_escape e # class_tokens rest
      else plain c # class_tokens (e # rest))"

fun as_item :: "token \<Rightarrow> class_item option" where
  "as_item (Item a) = Some a"
| "as_item Dash = Some (Lit (CHR ''-''))"
| "as_item _ = None"

fun class_items :: "token list \<Rightarrow> class_item list option" where
  "class_items [] = None"
| "class_items (t # ts) =
     (if t = Close then (if ts = [] then Some [] else None)
      else case as_item t of
             None \<Rightarrow> None
           | Some a \<Rightarrow>
               (case ts of
                  Dash # u # ts' \<Rightarrow>
                    if u = Close then (if ts' = [] then Some [a, Lit (CHR ''-'')] else None)
                    else (case (a, as_item u) of
                            (Lit lo, Some (Lit hi)) \<Rightarrow>
                              if (of_char hi :: nat) < of_char lo then None
                              else map_option ((#) (Char_Range lo hi)) (class_items ts')
                          | _ \<Rightarrow> None)
                | _ \<Rightarrow> map_option ((#) a) (class_items ts)))"

definition compile_class :: "string \<Rightarrow> class_item list option" where
  "compile_class pat =
     (case pat of
        [] \<Rightarrow> None
      | c # body \<Rightarrow>
          if c \<noteq> CHR ''['' then None
          else (case body of
                  [] \<Rightarrow> None
                | b # rest \<Rightarrow> if b = CHR ''^'' \<or> b = CHR '']'' then None
                             else class_items (class_tokens body)))"

text \<open>
  The characters \<^verbatim>\<open>\s\<close> matches in a Python text pattern, among the code points below
  256: tab to carriage return, the four separators 28 to 31, the space, and the code
  points 133 and 160.
\<close>

definition is_space :: "char \<Rightarrow> bool" where
  "is_space c = (let n = of_char c :: nat
                 in (9 \<le> n \<and> n \<le> 13) \<or> (28 \<le> n \<and> n \<le> 32) \<or> n = 133 \<or> n = 160)"

fun item_matches :: "class_item \<Rightarrow> char \<Rightarrow> bool" where
  "item_matches Space_Category c = is_space c"
| "item_matches (Lit a) c = (c = a)"
| "item_matches (Char_Range lo hi) c = ((of_char lo :: nat) \<le> of_char c \<and> (of_char c :: nat) \<le> of_char hi)"

text \<open>
  \<^verbatim>\<open>Series.str.replace(pat, '', regex=True)\<close> on one text, for a pattern that is a
  character class: every character the class matches is dropped.
\<close>

definition str_replace :: "string \<Rightarrow> string \<Rightarrow> string option" where
  "str_replace pat s =
     map_option (\<lambda>items. filter (\<lambda>c. \<not> list_ex (\<lambda>item. item_matches item c) items) s)
       (compile_class pat)"

definition budget_pattern :: string where
  "budget_pattern = [CHR ''['', backslash, CHR ''s'', backslash, CHR ''$'', CHR ''-'', CHR '','', CHR '']'']"


text \<open>The characters from \<^verbatim>\<open>$\<close> (code 36) to the comma (code 44).\<close>

definition stripped_chars :: string where
  "stripped_chars = [CHR ''$'', CHR ''%'', CHR ''&'', CHR 0x27, CHR ''('', CHR '')'', CHR ''*'',
                     CHR ''+'', CHR '','']"

text \<open>
  \<^verbatim>\<open>pd.to_numeric(..., errors='coerce')\<close> on one text. The model covers the texts made
  of digits, points and signs (\<open>decimal_text\<close>), and is \<open>None\<close> on every other text
  (exponents and the words for infinity and not-a-number are not modelled). Such a text is
  a number exactly when it is an optional sign followed by digits with at most one point
  and at least one digit; it is then converted to that number, and to the missing value
  otherwise.
\<close>

definition digits_value :: "string \<Rightarrow> nat" where
  "digits_value ds = foldl (\<lambda>acc c. 10 * acc + (of_char c - 48)) 0 ds"

definition unsigned_decimal :: "string \<Rightarrow> rat option" where
  "unsigned_decimal t =
     (let ip = takeWhile is_digit t; r = dropWhile is_digit t
      in case r of
           [] \<Rightarrow> if ip = [] then None else Some (of_nat (digits_value ip))
         | c # fp \<Rightarrow>
             if c = CHR ''.'' \<and> list_all is_digit fp \<and> (ip \<noteq> [] \<or> fp \<noteq> [])
             then Some (of_nat (digits_value ip) + of_nat (digits_value fp) / 10 ^ length fp)
             else None)"

definition decimal_text :: "string \<Rightarrow> bool" where
  "decimal_text t = list_all (\<lambda>c. is_digit c \<or> c = CHR ''.'' \<or> c = CHR ''+'' \<or> c = CHR ''-'') t"

definition coerce :: "rat option \<Rightarrow> cell" where
  "coerce r = (case r of None \<Rightarrow> Num NaN | Some q \<Rightarrow> Num (Fin q))"

definition to_numeric :: "string \<Rightarrow> cell option" where
  "to_numeric t =
     (if \<not> decimal_text t then None
      else case t of
             [] \<Rightarrow> Some (Num NaN)
           | c # rest \<Rightarrow>
               if c = CHR ''-'' then Some (coerce (map_option uminus (unsigned_decimal rest)))
               else if c = CHR ''+'' then Some (coerce (unsigned_decimal rest))
               else Some (coerce (unsigned_decimal t)))"

text \<open>Lines 134 and 135 of \<open>clean_and_convert_budgets\<close> on one text of a budget column.\<close>

definition clean_and_convert_text :: "string \<Rightarrow> cell option" where
  "clean_and_convert_text s =
     (case str_replace budget_pattern s of None \<Rightarrow> None | Some t \<Rightarrow> to_numeric t)"

section \<open>Evaluation and lookup lemmas\<close>

lemmas frame_defs = getitem_def eq_str_def mask_and_def loc_get_def loc_set_def loc_new_def
  notna_def count_series_def sum_series_def

lemmas helper_defs = get_num_flights_def get_budget_def update_flight_level_budgets_def
  update_pair_def update_budgets_def

lemma getitem_None: "map_of df c = None \<Longrightarrow> getitem df c = Inl (KeyError c)"
  by (simp add: getitem_def)

lemma getitem_Some: "map_of df c = Some col \<Longrightarrow> getitem df c = Inr col"
  by (simp add: getitem_def)

text \<open>
  C3, at a failing input. The claim: \<open>get_num_flights\<close> returns exactly the number of
  rows whose package and start date match. A flight table with one matching row whose
  budget is missing has one such row, and the function returns 0: \<^verbatim>\<open>count()\<close> leaves
  missing budgets out.
\<close>

theorem get_num_flights_null_budget:
  "get_num_flights
     [(''Package Name'', [Str ''P1'']), (''Start Date'', [Str ''D1'']), (''Budget'', [Num NaN])]
     ''P1'' ''D1'' = Inr 0"
  by (simp add: helper_defs frame_defs)

text \<open>
  C1, at a failing input. The claim: after \<open>update_budgets\<close>, every row of a processed
  group with \<open>n > 0\<close> matching rows holds the group's aggregate budget divided by \<open>n\<close>.
  The group below has two rows, one with a missing budget, and an aggregate budget of 100:
  both rows end with 100, not 50, since the divisor is the count of non-missing budgets.
\<close>

theorem update_budgets_null_budget_divisor:
  "update_budgets remdups
     [(''Package Name'', [Str ''P1'', Str ''P1'']), (''Start Date'', [Str ''D1'', Str ''D1'']),
      (''Budget'', [Num (Fin 10), Num NaN])]
     [(''Package Name'', [Str ''P1'']), (''Header_D1'', [Str ''D1'']),
      (''Values_D1'', [Num (Fin 100)])]
     [''P1''] [''D1'']
   = Inr [(''Package Name'', [Str ''P1'', Str ''P1'']), (''Start Date'', [Str ''D1'', Str ''D1'']),
          (''Budget'', [Num (Fin 100), Num (Fin 100)])]"
  by (simp add: helper_defs frame_defs)

text \<open>
  C5, at a failing input. The claim: running \<open>update_budgets\<close> a second time on the
  output of the first run gives the output of the first run. The table below is the output
  of the first run on the input of \<open>update_budgets_null_budget_divisor\<close>; the second
  run, with the same budgets and keys, turns its budgets from 100 into 50.
\<close>

theorem update_budgets_second_run_differs:
  "update_budgets remdups
     [(''Package Name'', [Str ''P1'', Str ''P1'']), (''Start Date'', [Str ''D1'', Str ''D1'']),
      (''Budget'', [Num (Fin 100), Num (Fin 100)])]
     [(''Package Name'', [Str ''P1'']), (''Header_D1'', [Str ''D1'']),
      (''Values_D1'', [Num (Fin 100)])]
     [''P1''] [''D1'']
   = Inr [(''Package Name'', [Str ''P1'', Str ''P1'']), (''Start Date'', [Str ''D1'', Str ''D1'']),
          (''Budget'', [Num (Fin 50), Num (Fin 50)])]"
  by (simp add: helper_defs frame_defs)

text \<open>
  C2, at a failing input. The claim: for a processed pair with zero flights,
  \<open>update_budgets\<close> fails with a division-by-zero error and writes no sentinel into the
  table. In the first run below no row matches the pair (P2, D1), the count is 0, and the
  run returns the table without an error. In the second the only matching row has a
  missing budget, the count is 0 again, and the run writes infinity into the table.
\<close>

theorem update_budgets_zero_flights_no_error:
  "update_budgets remdups
     [(''Package Name'', [Str ''P1'']), (''Start Date'', [Str ''D1'']), (''Budget'', [Num (Fin 0)])]
     [(''Package Name'', [Str ''P1'']), (''Header_D1'', [Str ''D1'']),
      (''Values_D1'', [Num (Fin 100)])]
     [''P2''] [''D1'']
   = Inr [(''Package Name'', [Str ''P1'']), (''Start Date'', [Str ''D1'']),
          (''Budget'', [Num (Fin 0)])]
   \<and>
   update_budgets remdups
     [(''Package Name'', [Str ''P1'']), (''Start Date'', [Str ''D1'']), (''Budget'', [Num NaN])]
     [(''Package Name'', [Str ''P1'']), (''Header_D1'', [Str ''D1'']),
      (''Values_D1'', [Num (Fin 100)])]
     [''P1''] [''D1'']
   = Inr [(''Package Name'', [Str ''P1'']), (''Start Date'', [Str ''D1'']),
          (''Budget'', [Num PInf])]"
  by (simp add: helper_defs frame_defs)

text \<open>
  C8, counterexample. The claim: an operation that needs an absent column raises a
  missing-column error. \<open>update_flight_level_budgets\<close> on a table of two rows without
  a \<^verbatim>\<open>Budget\<close> column raises nothing: the assignment through \<^verbatim>\<open>.loc\<close> adds the
  column.
\<close>

theorem update_flight_level_budgets_adds_budget_column:
  "update_flight_level_budgets
     [(''Package Name'', [Str ''P1'', Str ''P2'']), (''Start Date'', [Str ''D1'', Str ''D1''])]
     ''P1'' ''D1'' (Fin 5)
   = Inr [(''Package Name'', [Str ''P1'', Str ''P2'']), (''Start Date'', [Str ''D1'', Str ''D1'']),
          (''Budget'', [Num (Fin 5), Num NaN])]"
  by (simp add: helper_defs frame_defs)

lemma alist_update_new:
  "map_of al k = None \<Longrightarrow> AList.update k v al = al @ [(k, v)]"
  by (induction al) (auto split: if_splits)

text \<open>
  C8, as amended. \<open>get_num_flights\<close> raises a \<^verbatim>\<open>KeyError\<close> naming an absent column
  when \<^verbatim>\<open>Package Name\<close>, \<^verbatim>\<open>Start Date\<close> or \<^verbatim>\<open>Budget\<close> is absent; \<open>get_budget\<close> does
  when \<^verbatim>\<open>Package Name\<close> or the header or value column of the start date is absent;
  \<open>update_flight_level_budgets\<close> does when \<^verbatim>\<open>Package Name\<close> or \<^verbatim>\<open>Start Date\<close> is
  absent. When only \<^verbatim>\<open>Budget\<close> is absent, \<open>update_flight_level_budgets\<close> raises no
  \<^verbatim>\<open>KeyError\<close>: on a table with at least one row it returns the table it was given with
  one more column at the end, \<^verbatim>\<open>Budget\<close>, that holds the value on the matching rows and
  the missing value on the others; on a table with no rows it raises \<^verbatim>\<open>ValueError\<close>.
\<close>

theorem missing_column_errors:
  "(\<forall>c \<in> {''Package Name'', ''Start Date'', ''Budget''}. map_of df c = None \<longrightarrow>
      (\<exists>c'. map_of df c' = None \<and> get_num_flights df package start_date = Inl (KeyError c')))
   \<and> (\<forall>c \<in> {''Package Name'', ''Header_'' @ start_date, ''Values_'' @ start_date}.
        map_of df c = None \<longrightarrow>
        (\<exists>c'. map_of df c' = None \<and> get_budget df package start_date = Inl (KeyError c')))
   \<and> (\<forall>c \<in> {''Package Name'', ''Start Date''}. map_of df c = None \<longrightarrow>
        (\<exists>c'. map_of df c' = None \<and>
           update_flight_level_budgets df package start_date v = Inl (KeyError c')))
   \<and> (\<forall>pk sd. map_of df ''Package Name'' = Some pk \<and> map_of df ''Start Date'' = Some sd \<and>
        map_of df ''Budget'' = None \<longrightarrow>
        update_flight_level_budgets df package start_date v
          = (if pk = [] then Inl ValueError
             else Inr (df @ [(''Budget'',
                    map (\<lambda>i. if pk ! i = Str package \<and> sd ! i = Str start_date
                               then Num v else Num NaN)
                        [0..<min (length pk) (length sd)])])))"
proof (intro conjI)
  show "\<forall>c \<in> {''Package Name'', ''Start Date'', ''Budget''}. map_of df c = None \<longrightarrow>
      (\<exists>c'. map_of df c' = None \<and> get_num_flights df package start_date = Inl (KeyError c'))"
    by (auto simp: get_num_flights_def getitem_def split: option.splits)
  show "\<forall>c \<in> {''Package Name'', ''Header_'' @ start_date, ''Values_'' @ start_date}.
        map_of df c = None \<longrightarrow>
        (\<exists>c'. map_of df c' = None \<and> get_budget df package start_date = Inl (KeyError c'))"
    by (auto simp: get_budget_def getitem_def Let_def split: option.splits)
  show "\<forall>c \<in> {''Package Name'', ''Start Date''}. map_of df c = None \<longrightarrow>
        (\<exists>c'. map_of df c' = None \<and>
           update_flight_level_budgets df package start_date v = Inl (KeyError c'))"
    by (auto simp: update_flight_level_budgets_def getitem_def split: option.splits)
  show "\<forall>pk sd. map_of df ''Package Name'' = Some pk \<and> map_of df ''Start Date'' = Some sd \<and>
        map_of df ''Budget'' = None \<longrightarrow>
        update_flight_level_budgets df package start_date v
          = (if pk = [] then Inl ValueError
             else Inr (df @ [(''Budget'',
                    map (\<lambda>i. if pk ! i = Str package \<and> sd ! i = Str start_date
                               then Num v else Num NaN)
                        [0..<min (length pk) (length sd)])]))"
  proof (intro allI impI)
    fix pk sd
    assume a: "map_of df ''Package Name'' = Some pk \<and> map_of df ''Start Date'' = Some sd \<and>
        map_of df ''Budget'' = None"
    have col: "loc_new (mask_and (eq_str pk package) (eq_str sd start_date)) (Num v)
        = map (\<lambda>i. if pk ! i = Str package \<and> sd ! i = Str start_date then Num v else Num NaN)
            [0..<min (length pk) (length sd)]"
      by (intro nth_equalityI) (auto simp: loc_new_def mask_and_def eq_str_def)
    show "update_flight_level_budgets df package start_date v
          = (if pk = [] then Inl ValueError
             else Inr (df @ [(''Budget'',
                    map (\<lambda>i. if pk ! i = Str package \<and> sd ! i = Str start_date
                               then Num v else Num NaN)
                        [0..<min (length pk) (length sd)])]))"
      using a by (simp add: update_flight_level_budgets_def getitem_def alist_update_new col)
  qed
qed

theorem missing_column_errors_witness:
  "(\<exists>c'. get_num_flights [(''Package Name'', [Str ''P1''])] ''P1'' ''D1'' = Inl (KeyError c'))
   \<and> (\<exists>c'. get_budget [(''Package Name'', [Str ''P1''])] ''P1'' ''D1'' = Inl (KeyError c'))
   \<and> (\<exists>c'. update_flight_level_budgets [(''Package Name'', [Str ''P1''])] ''P1'' ''D1'' (Fin 1)
         = Inl (KeyError c'))
   \<and> update_flight_level_budgets
         [(''Package Name'', [Str ''P1'', Str ''P2'']), (''Start Date'', [Str ''D1'', Str ''D1''])]
         ''P1'' ''D1'' (Fin 1)
       = Inr [(''Package Name'', [Str ''P1'', Str ''P2'']),
              (''Start Date'', [Str ''D1'', Str ''D1'']),
              (''Budget'', [Num (Fin 1), Num NaN])]
   \<and> update_flight_level_budgets [(''Package Name'', []), (''Start Date'', [])]
         ''P1'' ''D1'' (Fin 1)
       = Inl ValueError"
  using missing_column_errors [where df = "[(''Package Name'', [Str ''P1''])]" and package = "''P1''"
      and start_date = "''D1''" and v = "Fin 1"]
    missing_column_errors [where df = "[(''Package Name'', [Str ''P1'', Str ''P2'']),
        (''Start Date'', [Str ''D1'', Str ''D1''])]"
      and package = "''P1''" and start_date = "''D1''" and v = "Fin 1"]
    missing_column_errors [where df = "[(''Package Name'', []), (''Start Date'', [])]"
      and package = "''P1''" and start_date = "''D1''" and v = "Fin 1"]
  by auto

section \<open>Selections by mask and by row number\<close>

lemma loc_get_index:
  "length sel = length col \<Longrightarrow>
   loc_get sel col = map ((!) col) (filter ((!) sel) [0..<length col])"
proof (induction col arbitrary: sel rule: rev_induct)
  case Nil
  then show ?case by (simp add: loc_get_def)
next
  case (snoc c col)
  then obtain b sel' where sel: "sel = sel' @ [b]" and len: "length sel' = length col"
    by (cases sel rule: rev_cases) auto
  have ih: "loc_get sel' col = map ((!) col) (filter ((!) sel') [0..<length col])"
    using snoc.IH len by simp
  have f: "filter ((!) (sel' @ [b])) [0..<length col] = filter ((!) sel') [0..<length col]"
    using len by (intro filter_cong) (auto simp: nth_append)
  have m: "map ((!) (col @ [c])) (filter ((!) sel') [0..<length col])
         = map ((!) col) (filter ((!) sel') [0..<length col])"
    by (intro map_cong) (auto simp: nth_append)
  have "loc_get sel (col @ [c]) = loc_get sel' col @ (if b then [c] else [])"
    using len by (simp add: loc_get_def sel)
  moreover have "map ((!) (col @ [c])) (filter ((!) sel) [0..<length (col @ [c])])
      = map ((!) col) (filter ((!) sel') [0..<length col]) @ (if b then [c] else [])"
  proof -
    have "(sel' @ [b]) ! length col = b"
      using len nth_append_length [of sel' b] by simp
    then have "filter ((!) sel) [0..<length (col @ [c])]
        = filter ((!) sel') [0..<length col] @ (if b then [length col] else [])"
      by (simp add: sel f)
    then show ?thesis
      by (simp add: m)
  qed
  ultimately show ?case
    by (simp add: ih)
qed

lemma mask_nth:
  "length c1 = n \<Longrightarrow> length c2 = n \<Longrightarrow> i < n \<Longrightarrow>
   mask_and (eq_str c1 v1) (eq_str c2 v2) ! i = (c1 ! i = Str v1 \<and> c2 ! i = Str v2)"
  by (simp add: mask_and_def eq_str_def)

lemma mask_length:
  "length c1 = n \<Longrightarrow> length c2 = n \<Longrightarrow> length (mask_and (eq_str c1 v1) (eq_str c2 v2)) = n"
  by (simp add: mask_and_def eq_str_def)

lemma loc_get_matching_rows:
  assumes "length c1 = length col" "length c2 = length col"
  shows "loc_get (mask_and (eq_str c1 v1) (eq_str c2 v2)) col
       = map ((!) col) (matching_rows c1 c2 v1 v2)"
proof -
  let ?m = "mask_and (eq_str c1 v1) (eq_str c2 v2)"
  have "filter ((!) ?m) [0..<length col]
      = filter (\<lambda>i. c1 ! i = Str v1 \<and> c2 ! i = Str v2) [0..<length col]"
    using assms by (intro filter_cong) (auto simp: mask_nth)
  then show ?thesis
    using assms by (simp add: loc_get_index mask_length matching_rows_def)
qed

lemma sum_from_finite:
  "\<forall>c \<in> set cs. finite_or_missing c \<Longrightarrow>
   sum_from (Fin a) cs = Inr (Fin (a + sum_list (map cell_value cs)))"
proof (induction cs arbitrary: a)
  case Nil
  then show ?case by simp
next
  case (Cons c cs)
  then show ?case
    by (cases c; cases "case c of Num x \<Rightarrow> x | _ \<Rightarrow> NaN")
       (auto simp: finite_or_missing_def split: cell.splits num.splits)
qed

lemma get_num_flights_rows:
  assumes "map_of df ''Package Name'' = Some pk"
    and "map_of df ''Start Date'' = Some sd"
    and "map_of df ''Budget'' = Some bd"
    and "length pk = length bd" and "length sd = length bd"
  shows "get_num_flights df package start_date
       = Inr (length (filter (\<lambda>i. bd ! i \<noteq> Num NaN) (matching_rows pk sd package start_date)))"
proof -
  let ?rows = "matching_rows pk sd package start_date"
  have "get_num_flights df package start_date = Inr (count_series (map ((!) bd) ?rows))"
    using assms by (simp add: get_num_flights_def getitem_def loc_get_matching_rows)
  also have "count_series (map ((!) bd) ?rows) = length (filter (\<lambda>i. bd ! i \<noteq> Num NaN) ?rows)"
    by (simp add: count_series_def notna_def filter_map comp_def)
  finally show ?thesis .
qed

text \<open>
  C9. \<open>get_num_flights\<close> returns the number of matching rows whose \<^verbatim>\<open>Budget\<close> is not
  missing; when some matching row has a missing \<^verbatim>\<open>Budget\<close>, the count it returns, which
  is the divisor in \<open>update_pair\<close>, is strictly smaller than the number of matching rows.
\<close>

theorem get_num_flights_counts_non_null:
  assumes "map_of df ''Package Name'' = Some pk"
    and "map_of df ''Start Date'' = Some sd"
    and "map_of df ''Budget'' = Some bd"
    and "length pk = length bd" and "length sd = length bd"
  shows "get_num_flights df package start_date
           = Inr (length (filter (\<lambda>i. bd ! i \<noteq> Num NaN) (matching_rows pk sd package start_date)))
       \<and> ((\<exists>i \<in> set (matching_rows pk sd package start_date). bd ! i = Num NaN) \<longrightarrow>
            (\<exists>n. get_num_flights df package start_date = Inr n
               \<and> n < length (matching_rows pk sd package start_date)))"
proof -
  let ?rows = "matching_rows pk sd package start_date"
  have eq: "get_num_flights df package start_date
      = Inr (length (filter (\<lambda>i. bd ! i \<noteq> Num NaN) ?rows))"
    using assms by (rule get_num_flights_rows)
  have "length (filter (\<lambda>i. bd ! i \<noteq> Num NaN) ?rows) < length ?rows"
    if "\<exists>i \<in> set ?rows. bd ! i = Num NaN"
    using that by (auto intro: length_filter_less)
  with eq show ?thesis by simp
qed

theorem get_num_flights_counts_non_null_witness:
  "\<exists>n. get_num_flights
       [(''Package Name'', [Str ''P1'', Str ''P1'']), (''Start Date'', [Str ''D1'', Str ''D1'']),
        (''Budget'', [Num (Fin 10), Num NaN])] ''P1'' ''D1'' = Inr n
     \<and> n < length (matching_rows [Str ''P1'', Str ''P1''] [Str ''D1'', Str ''D1''] ''P1'' ''D1'')"
proof -
  have "1 \<in> set (matching_rows [Str ''P1'', Str ''P1''] [Str ''D1'', Str ''D1''] ''P1'' ''D1'')"
    by (simp add: matching_rows_def)
  moreover have "[Num (Fin 10), Num NaN] ! 1 = Num NaN" by simp
  ultimately have "\<exists>i \<in> set (matching_rows [Str ''P1'', Str ''P1''] [Str ''D1'', Str ''D1'']
      ''P1'' ''D1''). [Num (Fin 10), Num NaN] ! i = Num NaN"
    by blast
  then show ?thesis
    using get_num_flights_counts_non_null
      [where df = "[(''Package Name'', [Str ''P1'', Str ''P1'']),
                    (''Start Date'', [Str ''D1'', Str ''D1'']),
                    (''Budget'', [Num (Fin 10), Num NaN])]"
         and pk = "[Str ''P1'', Str ''P1'']" and sd = "[Str ''D1'', Str ''D1'']"
         and bd = "[Num (Fin 10), Num NaN]" and package = "''P1''" and start_date = "''D1''"]
    by (simp add: matching_rows_def)
qed

text \<open>
  C4. On a package-budget table that has the \<^verbatim>\<open>Package Name\<close> column and the header and
  value columns of the start date, with finite or missing numbers in the value cells of the
  matching rows, \<open>get_budget\<close> returns the sum of the value column over the rows whose
  package is \<open>package\<close> and whose header cell is \<open>start_date\<close>, a missing value adding
  nothing; when no row matches, it returns 0 and raises nothing.
\<close>

theorem get_budget_sums_matching_rows:
  assumes "map_of df ''Package Name'' = Some pk"
    and "map_of df (''Header_'' @ start_date) = Some hdr"
    and "map_of df (''Values_'' @ start_date) = Some vl"
    and "length pk = length vl" and "length hdr = length vl"
    and "\<forall>i \<in> set (matching_rows pk hdr package start_date). finite_or_missing (vl ! i)"
  shows "get_budget df package start_date
           = Inr (Fin (\<Sum>i \<leftarrow> matching_rows pk hdr package start_date. cell_value (vl ! i)))
       \<and> (matching_rows pk hdr package start_date = [] \<longrightarrow>
            get_budget df package start_date = Inr (Fin 0))"
proof -
  let ?rows = "matching_rows pk hdr package start_date"
  have "get_budget df package start_date = sum_series (map ((!) vl) ?rows)"
    using assms(1-5) by (simp add: get_budget_def getitem_def loc_get_matching_rows)
  also have "\<dots> = Inr (Fin (0 + sum_list (map cell_value (map ((!) vl) ?rows))))"
    unfolding sum_series_def using assms(6) by (intro sum_from_finite) simp
  finally have "get_budget df package start_date
      = Inr (Fin (\<Sum>i \<leftarrow> ?rows. cell_value (vl ! i)))"
    by (simp add: comp_def)
  then show ?thesis by auto
qed

theorem get_budget_sums_matching_rows_witness:
  "get_budget
     [(''Package Name'', [Str ''P1'', Str ''P2'', Str ''P1'']),
      (''Header_D1'', [Str ''D1'', Str ''D1'', Str ''D1'']),
      (''Values_D1'', [Num (Fin 100), Num (Fin 7), Num (Fin 20)])] ''P1'' ''D1''
   = Inr (Fin 120)"
  using get_budget_sums_matching_rows
      [where df = "[(''Package Name'', [Str ''P1'', Str ''P2'', Str ''P1'']),
                    (''Header_D1'', [Str ''D1'', Str ''D1'', Str ''D1'']),
                    (''Values_D1'', [Num (Fin 100), Num (Fin 7), Num (Fin 20)])]"
         and pk = "[Str ''P1'', Str ''P2'', Str ''P1'']"
         and hdr = "[Str ''D1'', Str ''D1'', Str ''D1'']"
         and vl = "[Num (Fin 100), Num (Fin 7), Num (Fin 20)]"
         and package = "''P1''" and start_date = "''D1''"]
  by (simp add: matching_rows_def finite_or_missing_def)

section \<open>The loops of \<open>update_budgets\<close>\<close>

lemma start_dates_loop_pairs:
  "start_dates_loop df2 p ds df1 = pairs_loop df2 (map (Pair p) ds) df1"
  by (induction ds arbitrary: df1) (auto split: sum.splits)

lemma pairs_loop_append:
  "pairs_loop df2 (ks @ ks') df1 =
     (case pairs_loop df2 ks df1 of Inl e \<Rightarrow> Inl e | Inr df1' \<Rightarrow> pairs_loop df2 ks' df1')"
  by (induction ks arbitrary: df1) (auto split: sum.splits)

lemma packages_loop_pairs:
  "packages_loop df2 ps ds df1 = pairs_loop df2 (List.product ps ds) df1"
  by (induction ps arbitrary: df1)
     (auto simp: pairs_loop_append start_dates_loop_pairs split: sum.splits)

lemma loc_set_index:
  assumes "length c1 = length col" "length c2 = length col"
  shows "loc_set (mask_and (eq_str c1 v1) (eq_str c2 v2)) v col
       = map (\<lambda>i. if c1 ! i = Str v1 \<and> c2 ! i = Str v2 then v else col ! i) [0..<length col]"
  using assms by (intro nth_equalityI) (auto simp: loc_set_def mask_and_def eq_str_def)

lemma matching_rows_iff:
  "i \<in> set (matching_rows c1 c2 v1 v2) \<longleftrightarrow> i < length c1 \<and> c1 ! i = Str v1 \<and> c2 ! i = Str v2"
  by (auto simp: matching_rows_def)

lemma length_reallocated [simp]: "length (reallocated df2 pk sd bd K) = length bd"
  by (simp add: reallocated_def)

lemma reallocated_empty: "reallocated df2 pk sd bd {} = bd"
  by (auto simp: reallocated_def intro!: nth_equalityI split: cell.splits)

lemma reallocated_outside:
  "i < length bd \<Longrightarrow> \<not> (\<exists>p d. (p, d) \<in> K \<and> pk ! i = Str p \<and> sd ! i = Str d) \<Longrightarrow>
   reallocated df2 pk sd bd K ! i = bd ! i"
  by (auto simp: reallocated_def split: cell.splits)

lemma reallocated_inside:
  "i < length bd \<Longrightarrow> (p, d) \<in> K \<Longrightarrow> pk ! i = Str p \<Longrightarrow> sd ! i = Str d \<Longrightarrow>
   reallocated df2 pk sd bd K ! i = Num (flight_share df2 pk sd bd p d)"
  by (auto simp: reallocated_def split: cell.splits)

text \<open>One pass of the loop body on a table with the three flight columns.\<close>

lemma update_pair_rows:
  assumes "map_of cur ''Package Name'' = Some pk"
    and "map_of cur ''Start Date'' = Some sd"
    and "map_of cur ''Budget'' = Some cb"
    and "length pk = length cb" and "length sd = length cb"
    and "get_budget df2 p d = Inr b"
  shows "update_pair df2 p d cur
       = Inr (AList.update ''Budget''
                (map (\<lambda>i. if pk ! i = Str p \<and> sd ! i = Str d
                           then Num (true_divide b
                                  (length (filter (\<lambda>i. cb ! i \<noteq> Num NaN) (matching_rows pk sd p d))))
                           else cb ! i) [0..<length cb])
                cur)"
  using assms
  by (simp add: update_pair_def get_num_flights_rows [OF assms(1-5)]
        update_flight_level_budgets_def getitem_def loc_set_index)

lemma update_pair_budget_error:
  "get_budget df2 p d = Inl e \<Longrightarrow> \<exists>e'. update_pair df2 p d cur = Inl e'"
  by (auto simp: update_pair_def split: sum.splits)

lemma update_pair_no_columns:
  "map_of cur ''Package Name'' = None \<or> map_of cur ''Start Date'' = None
     \<or> map_of cur ''Budget'' = None \<Longrightarrow>
   \<exists>e'. update_pair df2 p d cur = Inl e'"
  by (auto simp: update_pair_def get_num_flights_def getitem_def split: sum.splits option.splits)

lemma reallocated_step:
  assumes len: "length pk = length bd" "length sd = length bd"
    and new: "(p, d) \<notin> K"
    and b: "get_budget df2 p d = Inr b"
  shows "map (\<lambda>i. if pk ! i = Str p \<and> sd ! i = Str d
                   then Num (true_divide b
                          (length (filter (\<lambda>i. reallocated df2 pk sd bd K ! i \<noteq> Num NaN)
                                     (matching_rows pk sd p d))))
                   else reallocated df2 pk sd bd K ! i) [0..<length bd]
       = reallocated df2 pk sd bd (insert (p, d) K)"
proof -
  have same: "reallocated df2 pk sd bd K ! i = bd ! i"
    if "i \<in> set (matching_rows pk sd p d)" for i
    using that new len by (intro reallocated_outside) (auto simp: matching_rows_iff)
  have "filter (\<lambda>i. reallocated df2 pk sd bd K ! i \<noteq> Num NaN) (matching_rows pk sd p d)
      = filter (\<lambda>i. bd ! i \<noteq> Num NaN) (matching_rows pk sd p d)"
    by (intro filter_cong) (auto simp: same)
  then have share: "true_divide b
        (length (filter (\<lambda>i. reallocated df2 pk sd bd K ! i \<noteq> Num NaN) (matching_rows pk sd p d)))
      = flight_share df2 pk sd bd p d"
    using b by (simp add: flight_share_def budget_of_def)
  show ?thesis
    unfolding share
    by (intro nth_equalityI) (auto simp: reallocated_def split: cell.splits)
qed

lemma pairs_loop_reallocated:
  assumes cols: "map_of df0 ''Package Name'' = Some pk" "map_of df0 ''Start Date'' = Some sd"
      "map_of df0 ''Budget'' = Some bd"
    and len: "length pk = length bd" "length sd = length bd"
  shows "distinct ks \<Longrightarrow> set ks \<inter> K = {} \<Longrightarrow>
         \<forall>(p, d) \<in> set ks. \<exists>b. get_budget df2 p d = Inr b \<Longrightarrow>
         pairs_loop df2 ks (AList.update ''Budget'' (reallocated df2 pk sd bd K) df0)
           = Inr (AList.update ''Budget'' (reallocated df2 pk sd bd (K \<union> set ks)) df0)"
proof (induction ks arbitrary: K)
  case Nil
  then show ?case by simp
next
  case (Cons k ks)
  obtain p d where k: "k = (p, d)" by (cases k)
  from Cons.prems k obtain b where b: "get_budget df2 p d = Inr b" by auto
  have new: "(p, d) \<notin> K" using Cons.prems k by auto
  let ?cur = "AList.update ''Budget'' (reallocated df2 pk sd bd K) df0"
  have "update_pair df2 p d ?cur
      = Inr (AList.update ''Budget'' (reallocated df2 pk sd bd (insert (p, d) K)) df0)"
    using cols len b new
    by (subst update_pair_rows [where pk = pk and sd = sd
          and cb = "reallocated df2 pk sd bd K" and b = b])
       (simp_all add: AList.update_conv' reallocated_step)
  moreover have "pairs_loop df2 ks
        (AList.update ''Budget'' (reallocated df2 pk sd bd (insert (p, d) K)) df0)
      = Inr (AList.update ''Budget'' (reallocated df2 pk sd bd (insert (p, d) K \<union> set ks)) df0)"
    using Cons.prems k by (intro Cons.IH) auto
  ultimately show ?case
    by (simp add: k)
qed

lemma pairs_loop_budget_error:
  "\<exists>(p, d) \<in> set ks. \<exists>e. get_budget df2 p d = Inl e \<Longrightarrow> \<exists>e'. pairs_loop df2 ks cur = Inl e'"
proof (induction ks arbitrary: cur)
  case Nil
  then show ?case by simp
next
  case (Cons k ks)
  obtain p d where k: "k = (p, d)" by (cases k)
  show ?case
  proof (cases "update_pair df2 p d cur")
    case (Inl e)
    then show ?thesis by (simp add: k)
  next
    case (Inr cur')
    then have "\<not> (\<exists>e. get_budget df2 p d = Inl e)"
      using update_pair_budget_error [of df2 p d _ cur] by auto
    with Cons.prems k have "\<exists>(p, d) \<in> set ks. \<exists>e. get_budget df2 p d = Inl e" by auto
    then show ?thesis using Cons.IH [of cur'] Inr by (simp add: k)
  qed
qed

lemma pairs_loop_no_columns:
  assumes "ks \<noteq> []"
    and "map_of cur ''Package Name'' = None \<or> map_of cur ''Start Date'' = None
          \<or> map_of cur ''Budget'' = None"
  shows "\<exists>e'. pairs_loop df2 ks cur = Inl e'"
proof -
  from assms(1) obtain p d rest where ks: "ks = (p, d) # rest"
    by (cases ks) auto
  from update_pair_no_columns [OF assms(2)] obtain e where "update_pair df2 p d cur = Inl e"
    by blast
  then show ?thesis by (simp add: ks)
qed

lemma frame_rows_column:
  "frame_rows df n \<Longrightarrow> map_of df name = Some col \<Longrightarrow> length col = n"
  by (auto simp: frame_rows_def list_all_iff dest: map_of_SomeD)

lemma set_alist_update: "set (AList.update k v al) \<subseteq> insert (k, v) (set al)"
  by (induction al) auto

lemma frame_rows_update:
  "frame_rows df n \<Longrightarrow> length col = n \<Longrightarrow> frame_rows (AList.update name col df) n"
  using set_alist_update [of name col df]
  by (auto simp: frame_rows_def list_all_iff)

lemma packages_loop_expected:
  assumes rows: "frame_rows df1 n" and dist: "distinct ps" "distinct ds"
  shows "table_of (packages_loop df2 ps ds df1) = expected_table df2 df1 (set ps \<times> set ds)"
proof (cases "List.product ps ds = []")
  case True
  then have "set ps \<times> set ds = {}"
    by (metis set_product set_empty)
  with True show ?thesis
    by (simp add: packages_loop_pairs expected_table_def table_of_def)
next
  case False
  then have ne: "set ps \<times> set ds \<noteq> {}"
    by (metis set_product set_empty)
  show ?thesis
  proof (cases "map_of df1 ''Package Name'' = None \<or> map_of df1 ''Start Date'' = None
      \<or> map_of df1 ''Budget'' = None")
    case True
    from pairs_loop_no_columns [OF False True]
    obtain e where "pairs_loop df2 (List.product ps ds) df1 = Inl e" by blast
    with True ne show ?thesis
      by (auto simp: packages_loop_pairs expected_table_def table_of_def split: option.splits)
  next
    case cols: False
    then obtain pk sd bd where v: "map_of df1 ''Package Name'' = Some pk"
        "map_of df1 ''Start Date'' = Some sd" "map_of df1 ''Budget'' = Some bd"
      by auto
    have len: "length pk = length bd" "length sd = length bd"
      using rows v by (auto dest: frame_rows_column)
    show ?thesis
    proof (cases "\<forall>(p, d) \<in> set ps \<times> set ds. \<exists>b. get_budget df2 p d = Inr b")
      case True
      have "pairs_loop df2 (List.product ps ds)
              (AList.update ''Budget'' (reallocated df2 pk sd bd {}) df1)
          = Inr (AList.update ''Budget''
                   (reallocated df2 pk sd bd ({} \<union> set (List.product ps ds))) df1)"
        using True dist by (intro pairs_loop_reallocated [OF v len]) (auto simp: distinct_product)
      then have "pairs_loop df2 (List.product ps ds) df1
          = Inr (AList.update ''Budget'' (reallocated df2 pk sd bd (set ps \<times> set ds)) df1)"
        using v by (simp add: reallocated_empty AList.update_triv)
      with True ne v show ?thesis
        by (simp add: packages_loop_pairs expected_table_def table_of_def)
    next
      case False
      then have "\<exists>(p, d) \<in> set (List.product ps ds). \<exists>e. get_budget df2 p d = Inl e"
        by (auto, metis sum.exhaust)
      from pairs_loop_budget_error [OF this]
      obtain e where "pairs_loop df2 (List.product ps ds) df1 = Inl e" by blast
      with False ne v show ?thesis
        by (simp add: packages_loop_pairs expected_table_def table_of_def)
    qed
  qed
qed

text \<open>
  What a run writes: every row of a processed pair holds the pair's aggregate budget divided
  by the number of the pair's rows whose budget was not missing when the run started.
\<close>

lemma update_budgets_processed_rows:
  assumes "frame_rows df1 n"
    and "set_order packages (ls packages)" and "set_order dates (ls dates)"
    and "update_budgets ls df1 df2 packages dates = Inr out"
    and "map_of df1 ''Package Name'' = Some pk" and "map_of df1 ''Start Date'' = Some sd"
    and "map_of df1 ''Budget'' = Some bd"
    and "p \<in> set packages" and "d \<in> set dates" and "i \<in> set (matching_rows pk sd p d)"
  shows "\<exists>b. get_budget df2 p d = Inr b
           \<and> cell_at out ''Budget'' i
               = Some (Num (true_divide b
                   (length (filter (\<lambda>j. bd ! j \<noteq> Num NaN) (matching_rows pk sd p d)))))"
proof -
  let ?K = "set packages \<times> set dates"
  have "table_of (update_budgets ls df1 df2 packages dates) = expected_table df2 df1 ?K"
    using assms(1-3) by (simp add: update_budgets_def set_order_def packages_loop_expected)
  then have exp: "expected_table df2 df1 ?K = Some out"
    using assms(4) by (simp add: table_of_def)
  have K: "(p, d) \<in> ?K" using assms(8,9) by simp
  then have ne: "?K \<noteq> {}" by blast
  from exp ne assms(5-7)
  have ok: "\<forall>(p, d) \<in> ?K. \<exists>b. get_budget df2 p d = Inr b"
    and out: "out = AList.update ''Budget'' (reallocated df2 pk sd bd ?K) df1"
    by (auto simp: expected_table_def split: if_splits)
  from ok K obtain b where b: "get_budget df2 p d = Inr b" by auto
  have len: "length pk = length bd"
    using assms(1,5,7) by (auto dest: frame_rows_column)
  have "reallocated df2 pk sd bd ?K ! i = Num (flight_share df2 pk sd bd p d)"
    using assms(10) K len by (intro reallocated_inside) (auto simp: matching_rows_iff)
  then show ?thesis
    using b by (simp add: out cell_at_def AList.update_conv' flight_share_def budget_of_def)
qed

text \<open>
  C7. \<open>update_budgets\<close> returns the same flight table for \<open>packages\<close> and \<open>dates\<close>
  as for any lists \<open>packages'\<close> and \<open>dates'\<close> with the same values, their duplicate-free
  versions among them, and whatever the orders \<open>ls\<close> and \<open>ls'\<close> in which the distinct
  values are visited; a run that raises in one order raises in every order.
\<close>

theorem update_budgets_duplicates_and_order:
  assumes "frame_rows df1 n"
    and "set_order packages (ls packages)" and "set_order dates (ls dates)"
    and "set_order packages' (ls' packages')" and "set_order dates' (ls' dates')"
    and "set packages' = set packages" and "set dates' = set dates"
  shows "table_of (update_budgets ls df1 df2 packages dates)
       = table_of (update_budgets ls' df1 df2 packages' dates')"
proof -
  have "table_of (update_budgets ls df1 df2 packages dates)
      = expected_table df2 df1 (set packages \<times> set dates)"
    using assms(1-3) by (simp add: update_budgets_def set_order_def packages_loop_expected)
  moreover have "table_of (update_budgets ls' df1 df2 packages' dates')
      = expected_table df2 df1 (set packages \<times> set dates)"
    using assms(1,4-7) by (simp add: update_budgets_def set_order_def packages_loop_expected)
  ultimately show ?thesis by simp
qed

text \<open>
  C6. A run of \<open>update_budgets\<close> that returns a table returns one with the columns of
  the flight table it was given, in the same order and with the same number of rows; every
  column other than \<^verbatim>\<open>Budget\<close> is the column it was; and a row whose package and start
  date are not a processed pair keeps its \<^verbatim>\<open>Budget\<close>.
\<close>

theorem update_budgets_frame:
  assumes "frame_rows df1 n"
    and "set_order packages (ls packages)" and "set_order dates (ls dates)"
    and "update_budgets ls df1 df2 packages dates = Inr out"
  shows "map fst out = map fst df1 \<and> frame_rows out n
       \<and> (\<forall>name. name \<noteq> ''Budget'' \<longrightarrow> map_of out name = map_of df1 name)
       \<and> (\<forall>i < n. \<not> processed_row df1 packages dates i \<longrightarrow>
              cell_at out ''Budget'' i = cell_at df1 ''Budget'' i)"
proof -
  let ?K = "set packages \<times> set dates"
  have "table_of (update_budgets ls df1 df2 packages dates) = expected_table df2 df1 ?K"
    using assms(1-3) by (simp add: update_budgets_def set_order_def packages_loop_expected)
  then have exp: "expected_table df2 df1 ?K = Some out"
    using assms(4) by (simp add: table_of_def)
  show ?thesis
  proof (cases "?K = {}")
    case True
    with exp have "out = df1" by (simp add: expected_table_def)
    with assms(1) show ?thesis by simp
  next
    case False
    with exp obtain pk sd bd where v: "map_of df1 ''Package Name'' = Some pk"
        "map_of df1 ''Start Date'' = Some sd" "map_of df1 ''Budget'' = Some bd"
      and out: "out = AList.update ''Budget'' (reallocated df2 pk sd bd ?K) df1"
      by (auto simp: expected_table_def split: option.splits if_splits)
    have len: "length bd = n" using assms(1) v by (auto dest: frame_rows_column)
    have keys: "map fst out = map fst df1"
      using v(3) by (auto simp: out AList.update_keys dest: map_of_SomeD intro: rev_image_eqI)
    have rows: "frame_rows out n"
      unfolding out using assms(1) len by (intro frame_rows_update) simp_all
    have others: "\<forall>name. name \<noteq> ''Budget'' \<longrightarrow> map_of out name = map_of df1 name"
      by (simp add: out AList.update_conv')
    have kept: "cell_at out ''Budget'' i = cell_at df1 ''Budget'' i"
      if "i < n" "\<not> processed_row df1 packages dates i" for i
    proof -
      have "\<not> (\<exists>p d. (p, d) \<in> ?K \<and> pk ! i = Str p \<and> sd ! i = Str d)"
        using that(2) v by (auto simp: processed_row_def cell_at_def list_ex_iff)
      then have "reallocated df2 pk sd bd ?K ! i = bd ! i"
        using that(1) len by (intro reallocated_outside) simp_all
      then show ?thesis
        using v by (simp add: cell_at_def out AList.update_conv')
    qed
    from keys rows others kept show ?thesis by blast
  qed
qed

theorem update_budgets_frame_witness:
  "frame_rows
     [(''Package Name'', [Str ''P1'', Str ''P2'']), (''Start Date'', [Str ''D1'', Str ''D1'']),
      (''Budget'', [Num (Fin 100), Num (Fin 7)])] 2
   \<and> cell_at
       [(''Package Name'', [Str ''P1'', Str ''P2'']), (''Start Date'', [Str ''D1'', Str ''D1'']),
        (''Budget'', [Num (Fin 100), Num (Fin 7)])] ''Budget'' 1
     = cell_at
       [(''Package Name'', [Str ''P1'', Str ''P2'']), (''Start Date'', [Str ''D1'', Str ''D1'']),
        (''Budget'', [Num (Fin 0), Num (Fin 7)])] ''Budget'' 1"
proof -
  let ?df1 = "[(''Package Name'', [Str ''P1'', Str ''P2'']),
               (''Start Date'', [Str ''D1'', Str ''D1'']),
               (''Budget'', [Num (Fin 0), Num (Fin 7)])]"
  let ?df2 = "[(''Package Name'', [Str ''P1'']), (''Header_D1'', [Str ''D1'']),
               (''Values_D1'', [Num (Fin 100)])]"
  let ?out = "[(''Package Name'', [Str ''P1'', Str ''P2'']),
               (''Start Date'', [Str ''D1'', Str ''D1'']),
               (''Budget'', [Num (Fin 100), Num (Fin 7)])]"
  have rows: "frame_rows ?df1 2"
    by (simp add: frame_rows_def)
  have ps: "set_order [''P1'', ''P1''] (remdups [''P1'', ''P1''])"
    and ds: "set_order [''D1''] (remdups [''D1''])"
    by (simp_all add: set_order_def)
  have run: "update_budgets remdups ?df1 ?df2 [''P1'', ''P1''] [''D1''] = Inr ?out"
    by (simp add: helper_defs frame_defs)
  have other: "\<not> processed_row ?df1 [''P1'', ''P1''] [''D1''] 1"
    by (simp add: processed_row_def cell_at_def)
  from update_budgets_frame [OF rows ps ds run] other show ?thesis
    by simp
qed

theorem update_budgets_duplicates_and_order_witness:
  "table_of (update_budgets remdups
      [(''Package Name'', [Str ''P1'', Str ''P2'', Str ''P1'']),
       (''Start Date'', [Str ''D1'', Str ''D1'', Str ''D1'']),
       (''Budget'', [Num (Fin 0), Num (Fin 0), Num (Fin 0)])]
      [(''Package Name'', [Str ''P1'', Str ''P2'']), (''Header_D1'', [Str ''D1'', Str ''D1'']),
       (''Values_D1'', [Num (Fin 100), Num (Fin 30)])]
      [''P1'', ''P2'', ''P1''] [''D1'', ''D1''])
   = table_of (update_budgets remdups
      [(''Package Name'', [Str ''P1'', Str ''P2'', Str ''P1'']),
       (''Start Date'', [Str ''D1'', Str ''D1'', Str ''D1'']),
       (''Budget'', [Num (Fin 0), Num (Fin 0), Num (Fin 0)])]
      [(''Package Name'', [Str ''P1'', Str ''P2'']), (''Header_D1'', [Str ''D1'', Str ''D1'']),
       (''Values_D1'', [Num (Fin 100), Num (Fin 30)])]
      [''P1'', ''P2''] [''D1''])"
proof -
  have rows: "frame_rows
      [(''Package Name'', [Str ''P1'', Str ''P2'', Str ''P1'']),
       (''Start Date'', [Str ''D1'', Str ''D1'', Str ''D1'']),
       (''Budget'', [Num (Fin 0), Num (Fin 0), Num (Fin 0)])] 3"
    by (simp add: frame_rows_def)
  have "set_order [''P1'', ''P2'', ''P1''] (remdups [''P1'', ''P2'', ''P1''])"
    and "set_order [''D1'', ''D1''] (remdups [''D1'', ''D1''])"
    and "set_order [''P1'', ''P2''] (remdups [''P1'', ''P2''])"
    and "set_order [''D1''] (remdups [''D1''])"
    and "set [''P1'', ''P2''] = set [''P1'', ''P2'', ''P1'']"
    and "set [''D1''] = set [''D1'', ''D1'']"
    by (auto simp: set_order_def)
  with rows show ?thesis
    by (rule update_budgets_duplicates_and_order)
qed

section \<open>The character class and the numeric conversion\<close>

lemma char_codes:
  "char_of (36::nat) = CHR ''$''" "char_of (37::nat) = CHR ''%''" "char_of (38::nat) = CHR ''&''"
  "char_of (39::nat) = CHR 0x27" "char_of (40::nat) = CHR ''(''" "char_of (41::nat) = CHR '')''"
  "char_of (42::nat) = CHR ''*''" "char_of (43::nat) = CHR ''+''" "char_of (44::nat) = CHR '',''"
  by (simp_all add: char_of_def bit_0)

lemma range_chars:
  "((36::nat) \<le> of_char c \<and> (of_char c :: nat) \<le> 44) \<longleftrightarrow>
     c \<in> set [CHR ''$'', CHR ''%'', CHR ''&'', CHR 0x27, CHR ''('', CHR '')'', CHR ''*'', CHR ''+'', CHR '','']"
proof
  assume a: "(36::nat) \<le> of_char c \<and> (of_char c :: nat) \<le> 44"
  have c: "c = char_of (of_char c :: nat)" by simp
  from a have "(of_char c :: nat) \<in> {36, 37, 38, 39, 40, 41, 42, 43, 44}" by auto
  then have "c \<in> {char_of (36::nat), char_of (37::nat), char_of (38::nat), char_of (39::nat),
      char_of (40::nat), char_of (41::nat), char_of (42::nat), char_of (43::nat), char_of (44::nat)}"
    using c by (metis (no_types, lifting) insert_iff singletonD)
  then show "c \<in> set [CHR ''$'', CHR ''%'', CHR ''&'', CHR 0x27, CHR ''('', CHR '')'', CHR ''*'', CHR ''+'', CHR '','']"
    by (simp only: char_codes) simp
next
  assume "c \<in> set [CHR ''$'', CHR ''%'', CHR ''&'', CHR 0x27, CHR ''('', CHR '')'', CHR ''*'', CHR ''+'', CHR '','']"
  then show "(36::nat) \<le> of_char c \<and> (of_char c :: nat) \<le> 44"
    by auto
qed
lemmas regex_defs = compile_class_def budget_pattern_def backslash_def class_escape_def plain_def
  is_digit_def is_alpha_def

lemma compile_budget_pattern:
  "compile_class budget_pattern = Some [Space_Category, Char_Range (CHR ''$'') (CHR '','')]"
  by (simp add: regex_defs)

lemma budget_class_matches:
  "list_ex (\<lambda>item. item_matches item c) [Space_Category, Char_Range (CHR ''$'') (CHR '','')]
     \<longleftrightarrow> is_space c \<or> c \<in> set stripped_chars"
  using range_chars [of c] by (simp add: stripped_chars_def)

lemma str_replace_budget_pattern:
  "str_replace budget_pattern s
     = Some (filter (\<lambda>c. \<not> is_space c \<and> c \<notin> set stripped_chars) s)"
proof -
  have eq: "(\<not> list_ex (\<lambda>item. item_matches item c)
                 [Space_Category, Char_Range (CHR ''$'') (CHR '','')])
          = (\<not> is_space c \<and> c \<notin> set stripped_chars)" for c
    using budget_class_matches [of c] by blast
  show ?thesis
    unfolding str_replace_def compile_budget_pattern
    by (simp only: option.map eq)
qed

lemma hyphen_not_stripped: "\<not> is_space (CHR ''-'') \<and> CHR ''-'' \<notin> set stripped_chars"
  by (simp add: is_space_def stripped_chars_def)

lemma unsigned_decimal_hyphen:
  assumes "CHR ''-'' \<in> set u"
  shows "unsigned_decimal u = None"
proof -
  let ?ip = "takeWhile is_digit u" and ?r = "dropWhile is_digit u"
  have nd: "\<not> is_digit (CHR ''-'')" by (simp add: is_digit_def)
  have "CHR ''-'' \<notin> set ?ip"
    using nd by (auto dest: set_takeWhileD)
  moreover have "set u = set ?ip \<union> set ?r"
    by (metis set_append takeWhile_dropWhile_id)
  ultimately have in_r: "CHR ''-'' \<in> set ?r" using assms by auto
  then obtain c fp where r: "?r = c # fp" by (cases ?r) auto
  show ?thesis
  proof (cases "c = CHR ''.''")
    case True
    with in_r r have "CHR ''-'' \<in> set fp" by auto
    with nd have "\<not> list_all is_digit fp" by (auto simp: list_all_iff)
    with r show ?thesis by (simp add: unsigned_decimal_def Let_def)
  next
    case False
    with r show ?thesis by (simp add: unsigned_decimal_def Let_def)
  qed
qed

lemma to_numeric_inner_hyphen:
  assumes "decimal_text t" and "CHR ''-'' \<in> set (tl t)"
  shows "to_numeric t = Some (Num NaN)"
proof -
  from assms(2) obtain c rest where t: "t = c # rest" and h: "CHR ''-'' \<in> set rest"
    by (cases t) auto
  have "unsigned_decimal rest = None" "unsigned_decimal t = None"
    using h by (auto simp: t intro: unsigned_decimal_hyphen)
  then show ?thesis
    using assms(1) by (simp add: to_numeric_def t coerce_def)
qed

text \<open>
  C10, at a failing input. The claim: a value containing a hyphen survives the stripping
  and is coerced to the missing value. The docstring of \<open>clean_and_convert_budgets\<close> says
  that hyphens are removed; the range \<^verbatim>\<open>\$-,\<close> of the pattern leaves them. The text
  \<^verbatim>\<open>-5\<close> contains a hyphen, comes out of the replacement as it went in, and is converted
  to the number -5: neither the missing value of the claim nor the 5 of the docstring.
\<close>

theorem leading_hyphen_not_coerced:
  "CHR ''-'' \<in> set ''-5'' \<and> str_replace budget_pattern ''-5'' = Some ''-5''
   \<and> clean_and_convert_text ''-5'' = Some (Num (Fin (- 5)))"
  by (simp add: clean_and_convert_text_def str_replace_budget_pattern to_numeric_def
        decimal_text_def unsigned_decimal_def digits_value_def coerce_def is_digit_def
        is_space_def stripped_chars_def)

text \<open>
  What the pattern does on every text. The character class of \<^verbatim>\<open>[\s\$-,]\<close> is the
  whitespace category and the range from \<^verbatim>\<open>$\<close> to the comma; the replacement removes
  exactly the whitespace and the characters \<^verbatim>\<open>$ % & ' ( ) * + ,\<close> and keeps every
  hyphen. Among the cleaned texts of digits, points and signs, one that contains a hyphen
  is converted to the missing value unless it is one leading hyphen followed by an
  unsigned decimal number; in that case the hyphen is read as the minus sign.
\<close>

theorem budget_pattern_strips_range:
  "compile_class budget_pattern = Some [Space_Category, Char_Range (CHR ''$'') (CHR '','')]
   \<and> str_replace budget_pattern s
       = Some (filter (\<lambda>c. \<not> is_space c \<and> c \<notin> set stripped_chars) s)
   \<and> (\<forall>t. str_replace budget_pattern s = Some t \<longrightarrow>
          filter (\<lambda>c. c = CHR ''-'') t = filter (\<lambda>c. c = CHR ''-'') s)
   \<and> (\<forall>t. str_replace budget_pattern s = Some t \<and> decimal_text t \<and> CHR ''-'' \<in> set t
            \<and> (\<forall>u. t = CHR ''-'' # u \<longrightarrow> unsigned_decimal u = None) \<longrightarrow>
          clean_and_convert_text s = Some (Num NaN))
   \<and> (\<forall>u q. str_replace budget_pattern s = Some (CHR ''-'' # u) \<and> decimal_text u
            \<and> unsigned_decimal u = Some q \<longrightarrow>
          clean_and_convert_text s = Some (Num (Fin (- q))))"
proof (intro conjI allI impI)
  show "compile_class budget_pattern = Some [Space_Category, Char_Range (CHR ''$'') (CHR '','')]"
    by (rule compile_budget_pattern)
  show "str_replace budget_pattern s
       = Some (filter (\<lambda>c. \<not> is_space c \<and> c \<notin> set stripped_chars) s)"
    by (rule str_replace_budget_pattern)
  show "filter (\<lambda>c. c = CHR ''-'') t = filter (\<lambda>c. c = CHR ''-'') s"
    if "str_replace budget_pattern s = Some t" for t
  proof -
    have "t = filter (\<lambda>c. \<not> is_space c \<and> c \<notin> set stripped_chars) s"
      using that by (simp add: str_replace_budget_pattern)
    then show ?thesis
      using hyphen_not_stripped by (auto intro: filter_cong)
  qed
  show "clean_and_convert_text s = Some (Num NaN)"
    if "str_replace budget_pattern s = Some t \<and> decimal_text t \<and> CHR ''-'' \<in> set t
          \<and> (\<forall>u. t = CHR ''-'' # u \<longrightarrow> unsigned_decimal u = None)" for t
  proof (cases "CHR ''-'' \<in> set (tl t)")
    case True
    with that show ?thesis
      by (simp add: clean_and_convert_text_def to_numeric_inner_hyphen)
  next
    case False
    with that obtain u where "t = CHR ''-'' # u" "unsigned_decimal u = None"
      by (cases t) auto
    with that show ?thesis
      by (simp add: clean_and_convert_text_def to_numeric_def coerce_def)
  qed
  show "clean_and_convert_text s = Some (Num (Fin (- q)))"
    if "str_replace budget_pattern s = Some (CHR ''-'' # u) \<and> decimal_text u
          \<and> unsigned_decimal u = Some q" for u q
    using that by (simp add: clean_and_convert_text_def to_numeric_def decimal_text_def coerce_def)
qed

theorem budget_pattern_strips_range_witness:
  "clean_and_convert_text ''$1,000-5'' = Some (Num NaN)
   \<and> clean_and_convert_text '' -1,250.5'' = Some (Num (Fin (- (2501 / 2))))"
proof -
  have a: "str_replace budget_pattern ''$1,000-5'' = Some ''1000-5''"
    and b: "str_replace budget_pattern '' -1,250.5'' = Some (CHR ''-'' # ''1250.5'')"
    by (simp_all add: str_replace_budget_pattern is_space_def stripped_chars_def)
  have "decimal_text ''1000-5''" "CHR ''-'' \<in> set ''1000-5''"
    "\<forall>u. ''1000-5'' = CHR ''-'' # u \<longrightarrow> unsigned_decimal u = None"
    by (simp_all add: decimal_text_def is_digit_def)
  with a have "clean_and_convert_text ''$1,000-5'' = Some (Num NaN)"
    using budget_pattern_strips_range [of "''$1,000-5''"] by blast
  moreover have "decimal_text ''1250.5''" "unsigned_decimal ''1250.5'' = Some (2501 / 2)"
    by (simp_all add: decimal_text_def unsigned_decimal_def digits_value_def is_digit_def)
  with b have "clean_and_convert_text '' -1,250.5'' = Some (Num (Fin (- (2501 / 2))))"
    using budget_pattern_strips_range [of "'' -1,250.5''"] by blast
  ultimately show ?thesis by simp
qed

end
